theory Spec2Isabelle
  imports Main
begin

section \<open>Strings\<close>

text \<open>
  A Python \<open>str\<close> is modelled as a \<open>string\<close> whose characters are the code points
  0 to 255. In that range \<open>str.isspace\<close> holds for the twelve characters below and the
  regular-expression class \<open>\d\<close> holds for the ten ASCII digits only.
\<close>

definition isspace :: "char \<Rightarrow> bool" where
  "isspace c = (c \<in> set [CHR 0x09, CHR 0x0A, CHR 0x0B, CHR 0x0C, CHR 0x0D,
                           CHR 0x1C, CHR 0x1D, CHR 0x1E, CHR 0x1F, CHR 0x20,
                           CHR 0x85, CHR 0xA0])"

definition isdigit :: "char \<Rightarrow> bool" where
  "isdigit c = (c \<in> set ''0123456789'')"

text \<open>\<open>s.startswith(p)\<close>.\<close>

definition startswith :: "string \<Rightarrow> string \<Rightarrow> bool" where
  "startswith s p = (take (length p) s = p)"

text \<open>
  \<open>s.split()\<close> with no argument: the maximal runs of non-whitespace characters, in order.
  The first argument of \<open>split_from\<close> is the run read so far.
\<close>

fun split_from :: "string \<Rightarrow> string \<Rightarrow> string list" where
  "split_from w [] = (if w = [] then [] else [w])"
| "split_from w (c # cs) =
     (if isspace c then (if w = [] then split_from [] cs else w # split_from [] cs)
      else split_from (w @ [c]) cs)"

definition str_split :: "string \<Rightarrow> string list" where
  "str_split s = split_from [] s"

text \<open>\<open>str(i)\<close> for an integer: its decimal digits, with a minus sign when negative.\<close>

definition digit_char :: "nat \<Rightarrow> char" where
  "digit_char d = ''0123456789'' ! d"

fun str_nat :: "nat \<Rightarrow> string" where
  "str_nat n = (if n < 10 then [digit_char n] else str_nat (n div 10) @ [digit_char (n mod 10)])"

declare str_nat.simps [simp del]

definition str :: "int \<Rightarrow> string" where
  "str i = (if i < 0 then CHR ''-'' # str_nat (nat (- i)) else str_nat (nat i))"

section \<open>Regular expressions\<close>

text \<open>
  The constructs of Python's \<open>re\<close> syntax that the crontab pattern uses. \<open>Rep m n r\<close> is
  \<open>r{m,n}\<close>.
\<close>

datatype regex =
    Digit
  | Lit char
  | Seq regex regex
  | Alt regex regex
  | Opt regex
  | Plus regex
  | Rep nat nat regex

fun weight :: "regex \<Rightarrow> nat" where
  "weight Digit = 1"
| "weight (Lit a) = 1"
| "weight (Seq a b) = Suc (weight a + weight b)"
| "weight (Alt a b) = Suc (weight a + weight b)"
| "weight (Opt a) = Suc (weight a)"
| "weight (Plus a) = Suc (weight a)"
| "weight (Rep m n a) = Suc n * Suc (weight a)"

text \<open>
  \<open>rems r s\<close> lists what is left of \<open>s\<close> after each way of matching \<open>r\<close> at its start, in
  the order a backtracking matcher tries them: the left alternative first, and for the
  greedy \<open>?\<close>, \<open>+\<close> and \<open>{m,n}\<close> one more repetition before stopping. A repetition of \<open>+\<close>
  that consumed nothing is not repeated again. \<open>{m,n}\<close> may stop once \<open>m\<close> repetitions are
  done and goes on for at most \<open>n\<close>.
\<close>

function rems :: "regex \<Rightarrow> string \<Rightarrow> string list" where
  "rems Digit s = (case s of [] \<Rightarrow> [] | c # cs \<Rightarrow> if isdigit c then [cs] else [])"
| "rems (Lit a) s = (case s of [] \<Rightarrow> [] | c # cs \<Rightarrow> if c = a then [cs] else [])"
| "rems (Seq a b) s = concat (map (rems b) (rems a s))"
| "rems (Alt a b) s = rems a s @ rems b s"
| "rems (Opt a) s = rems a s @ [s]"
| "rems (Plus a) s =
     concat (map (\<lambda>t. (if length t < length s then rems (Plus a) t else []) @ [t]) (rems a s))"
| "rems (Rep m n a) s =
     (if n = 0 then [] else concat (map (rems (Rep (m - 1) (n - 1) a)) (rems a s))) @
     (if m = 0 then [s] else [])"
  by pat_completeness auto
termination
  by (relation "measures [\<lambda>(r, s). weight r, \<lambda>(r, s). length s]") auto

declare rems.simps [simp del]

text \<open>
  \<open>re.match(r, s)\<close> looks for a match at the start of \<open>s\<close> only, and finds one iff
  \<open>rems\<close> finds a way to match.
\<close>

definition re_match :: "regex \<Rightarrow> string \<Rightarrow> bool" where
  "re_match r s = (rems r s \<noteq> [])"

text \<open>
  The strings that an expression matches in full. \<open>rems\<close> is shown below to find exactly
  the prefixes that are such strings.
\<close>

inductive matches :: "regex \<Rightarrow> string \<Rightarrow> bool" where
  Digit: "isdigit c \<Longrightarrow> matches Digit [c]"
| Lit: "matches (Lit a) [a]"
| Seq: "matches a u \<Longrightarrow> matches b v \<Longrightarrow> matches (Seq a b) (u @ v)"
| AltL: "matches a u \<Longrightarrow> matches (Alt a b) u"
| AltR: "matches b u \<Longrightarrow> matches (Alt a b) u"
| OptSome: "matches a u \<Longrightarrow> matches (Opt a) u"
| OptNone: "matches (Opt a) []"
| PlusOne: "matches a u \<Longrightarrow> matches (Plus a) u"
| PlusMore: "matches a u \<Longrightarrow> matches (Plus a) v \<Longrightarrow> matches (Plus a) (u @ v)"
| RepStop: "matches (Rep 0 n a) []"
| RepMore: "0 < n \<Longrightarrow> matches a u \<Longrightarrow> matches (Rep (m - 1) (n - 1) a) v \<Longrightarrow>
            matches (Rep m n a) (u @ v)"

section \<open>models.py\<close>

text \<open>
  The exceptions that can end a call. \<open>StoreError\<close> stands for what the backend of a job
  store raises when its database cannot be reached.
\<close>

datatype py_error =
    RuntimeError | ValueError | AttributeError | KeyError | StoreError
  | ConflictingIdError | SchedulerAlreadyRunningError

text \<open>
  An outcome of a method that mutates \<open>self\<close>: \<open>Inr\<close> the object on return, \<open>Inl\<close> the
  exception raised together with the object as it was at that moment.
\<close>

type_synonym 's outcome = "(py_error \<times> 's) + 's"

record cronjob =
  id' :: int
  crontab :: string
  job :: string
  enabled :: bool
  last_run :: "int option"
  last_status :: "string option"

text \<open>
  One field of the pattern, \<open>(\d+,)+\d+|(\d+(\/|-)\d+)|\d+|\*\<close>, and the pattern
  \<open>(((\d+,)+\d+|(\d+(\/|-)\d+)|\d+|\*) ?){5,7}\<close>.
\<close>

definition field :: regex where
  "field =
     Alt (Seq (Plus (Seq (Plus Digit) (Lit CHR '',''))) (Plus Digit))
    (Alt (Seq (Plus Digit) (Seq (Alt (Lit CHR ''/'') (Lit CHR ''-'')) (Plus Digit)))
    (Alt (Plus Digit)
         (Lit CHR ''*'')))"

definition pattern :: regex where
  "pattern = Rep 5 7 (Seq field (Opt (Lit CHR '' '')))"

definition validate_crontab :: "string \<Rightarrow> py_error + string" where
  "validate_crontab v = (if \<not> re_match pattern v then Inl ValueError else Inr v)"

section \<open>The scheduler library, as main.py uses it\<close>

text \<open>
  The job stores, the scheduler, its \<open>add_job\<close> and its \<open>start\<close> belong to the scheduler
  library, not to this repository. They are modelled by what main.py relies on.

  A job store holds the jobs persisted behind it. \<open>available\<close> tells whether the backend
  executes an operation or raises; the in-memory store is always available and starts
  empty, a durable store shows the rows of the database at its address.
\<close>

datatype backend = MemoryJobStore | SQLAlchemyJobStore | CrateDBSQLAlchemyJobStore

record cron_fields =
  minute :: string
  hour :: string
  day :: string
  month :: string
  day_of_week :: string

record cron_trigger = cron_fields +
  trigger_timezone :: string

text \<open>
  A job as \<open>add_job\<close> creates it. An option that the caller did not pass is \<open>None\<close>; the
  scheduler's job defaults stand in for it when the job is put into its store.
\<close>

record scheduled_job =
  job_id :: string
  func :: string
  trigger :: cron_trigger
  args :: "string list"
  job_max_instances :: "nat option"
  job_coalesce :: "bool option"

record job_store =
  backend :: backend
  url :: "string option"
  jobs :: "scheduled_job list"
  available :: bool

text \<open>
  The world behind a durable job store address, as startup finds it: the jobs persisted
  there, whether the database can be reached, and what \<open>create_engine\<close> makes of an address
  (\<open>None\<close> when it builds an engine, the exception it raises when the address does not
  parse or the driver is missing).
\<close>

record database =
  db_jobs :: "scheduled_job list"
  db_up :: bool
  create_engine :: "string \<Rightarrow> py_error option"

definition new_MemoryJobStore :: job_store where
  "new_MemoryJobStore = \<lparr>backend = MemoryJobStore, url = None, jobs = [], available = True\<rparr>"

text \<open>
  \<open>SQLAlchemyJobStore(url=address, ...)\<close> builds its engine from the address at once, and
  connects only when an operation runs.
\<close>

definition new_SQLAlchemyJobStore :: "database \<Rightarrow> string \<Rightarrow> py_error + job_store" where
  "new_SQLAlchemyJobStore db address =
     (case create_engine db address of
        Some e \<Rightarrow> Inl e
      | None \<Rightarrow>
          Inr \<lparr>backend = SQLAlchemyJobStore, url = Some address, jobs = db_jobs db,
               available = db_up db\<rparr>)"

text \<open>
  Modelled from the spec: the class \<open>CrateDBSQLAlchemyJobStore\<close> of the repository's module
  \<open>jobstore_sqlalchemy\<close> is not among the sources. The spec has all backends expose
  identical semantics, so the CrateDB store is given the contract of the SQL store.
\<close>

definition new_CrateDBSQLAlchemyJobStore :: "database \<Rightarrow> string \<Rightarrow> py_error + job_store" where
  "new_CrateDBSQLAlchemyJobStore db address =
     (case create_engine db address of
        Some e \<Rightarrow> Inl e
      | None \<Rightarrow>
          Inr \<lparr>backend = CrateDBSQLAlchemyJobStore, url = Some address, jobs = db_jobs db,
               available = db_up db\<rparr>)"

definition remove_all_jobs :: "job_store \<Rightarrow> py_error + job_store" where
  "remove_all_jobs store = (if available store then Inr (store\<lparr>jobs := []\<rparr>) else Inl StoreError)"

text \<open>A store refuses a job whose id it holds already; \<open>update_job\<close> replaces that job.\<close>

definition store_add_job :: "job_store \<Rightarrow> scheduled_job \<Rightarrow> py_error + job_store" where
  "store_add_job store j =
     (if \<not> available store then Inl StoreError
      else if job_id j \<in> set (map job_id (jobs store)) then Inl ConflictingIdError
      else Inr (store\<lparr>jobs := jobs store @ [j]\<rparr>))"

definition store_update_job :: "job_store \<Rightarrow> scheduled_job \<Rightarrow> py_error + job_store" where
  "store_update_job store j =
     (if \<not> available store then Inl StoreError
      else Inr (store\<lparr>jobs := map (\<lambda>k. if job_id k = job_id j then j else k) (jobs store)\<rparr>))"

datatype executor = ThreadPoolExecutor nat | ProcessPoolExecutor nat

record job_default_values =
  coalesce :: bool
  max_instances :: nat

text \<open>
  A scheduler. Until it is started (\<open>running\<close> is \<open>False\<close>), \<open>add_job\<close> queues each job,
  with the alias of its job store and the \<open>replace_existing\<close> flag, in \<open>pending_jobs\<close>.
\<close>

record scheduler =
  executors :: "(string \<times> executor) list"
  job_defaults :: job_default_values
  jobstores :: "(string \<times> job_store) list"
  timezone :: string
  pending_jobs :: "(scheduled_job \<times> string \<times> bool) list"
  running :: bool

definition BackgroundScheduler ::
  "(string \<times> executor) list \<Rightarrow> job_default_values \<Rightarrow> (string \<times> job_store) list \<Rightarrow> string
   \<Rightarrow> scheduler" where
  "BackgroundScheduler ex defaults stores tz =
     \<lparr>executors = ex, job_defaults = defaults, jobstores = stores, timezone = tz,
      pending_jobs = [], running = False\<rparr>"

text \<open>
  Putting a job into its store: the job defaults fill the options that were not passed, the
  store is looked up by its alias, and a job whose id the store holds already is refused
  unless \<open>replace_existing\<close> was passed.
\<close>

definition with_defaults :: "job_default_values \<Rightarrow> scheduled_job \<Rightarrow> scheduled_job" where
  "with_defaults d j =
     j\<lparr>job_max_instances :=
         Some (case job_max_instances j of None \<Rightarrow> max_instances d | Some n \<Rightarrow> n),
       job_coalesce :=
         Some (case job_coalesce j of None \<Rightarrow> coalesce d | Some b \<Rightarrow> b)\<rparr>"

definition put_store :: "scheduler \<Rightarrow> string \<Rightarrow> job_store \<Rightarrow> scheduler" where
  "put_store sch alias store =
     sch\<lparr>jobstores := map (\<lambda>p. if fst p = alias then (alias, store) else p) (jobstores sch)\<rparr>"

definition real_add_job ::
  "scheduler \<Rightarrow> scheduled_job \<times> string \<times> bool \<Rightarrow> py_error + scheduler" where
  "real_add_job sch entry =
     (case entry of (j, alias, replace_existing) \<Rightarrow>
        (case map_of (jobstores sch) alias of
           None \<Rightarrow> Inl KeyError
         | Some store \<Rightarrow>
             (case store_add_job store (with_defaults (job_defaults sch) j) of
                Inr store' \<Rightarrow> Inr (put_store sch alias store')
              | Inl e \<Rightarrow>
                  if e = ConflictingIdError \<and> replace_existing then
                    (case store_update_job store (with_defaults (job_defaults sch) j) of
                       Inl e' \<Rightarrow> Inl e'
                     | Inr store' \<Rightarrow> Inr (put_store sch alias store'))
                  else Inl e)))"

text \<open>
  \<open>add_job(func, 'cron', minute=..., ..., id=..., jobstore=..., args=..., max_instances=...)\<close>.
  The cron trigger takes the scheduler's timezone, no timezone being passed. Building the
  trigger raises \<open>ValueError\<close> on field texts the library does not recognise; which texts
  those are is the parameter \<open>accepts\<close>. The job is queued when the scheduler has not been
  started and put into its store otherwise.
\<close>

definition add_job ::
  "(cron_fields \<Rightarrow> bool) \<Rightarrow> scheduler \<Rightarrow> string \<Rightarrow> cron_fields \<Rightarrow> string \<Rightarrow> string
   \<Rightarrow> string list \<Rightarrow> nat \<Rightarrow> py_error + scheduler" where
  "add_job accepts sch fn cf ident alias arguments limit =
     (if \<not> accepts cf then Inl ValueError
      else
        let entry =
          (\<lparr>job_id = ident, func = fn,
            trigger = \<lparr>minute = minute cf, hour = hour cf, day = day cf,
                       month = month cf, day_of_week = day_of_week cf,
                       trigger_timezone = timezone sch\<rparr>,
            args = arguments, job_max_instances = Some limit, job_coalesce = None\<rparr>,
           alias, False)
        in if running sch then real_add_job sch entry
           else Inr (sch\<lparr>pending_jobs := pending_jobs sch @ [entry]\<rparr>))"

text \<open>
  \<open>scheduler.start()\<close>: a running scheduler refuses; every job store is started, which
  for a durable store connects to its database; then the queued jobs are put into their
  stores one by one, and the first that fails ends the call with the earlier ones in
  place and the queue as it was.
\<close>

fun flush_pending ::
  "scheduler \<Rightarrow> (scheduled_job \<times> string \<times> bool) list \<Rightarrow> (py_error \<times> scheduler) + scheduler" where
  "flush_pending sch [] = Inr sch"
| "flush_pending sch (p # ps) =
     (case real_add_job sch p of
        Inl e \<Rightarrow> Inl (e, sch)
      | Inr sch' \<Rightarrow> flush_pending sch' ps)"

definition scheduler_start :: "scheduler \<Rightarrow> (py_error \<times> scheduler) + scheduler" where
  "scheduler_start sch =
     (if running sch then Inl (SchedulerAlreadyRunningError, sch)
      else if \<not> list_all (\<lambda>p. available (snd p)) (jobstores sch) then Inl (StoreError, sch)
      else
        (case flush_pending sch (pending_jobs sch) of
           Inl x \<Rightarrow> Inl x
         | Inr sch' \<Rightarrow> Inr (sch'\<lparr>pending_jobs := [], running := True\<rparr>)))"

section \<open>main.py\<close>

record supertask =
  job_store_address :: string
  pre_delete_jobs :: bool
  scheduler :: "scheduler option"

definition configure :: "database \<Rightarrow> supertask \<Rightarrow> supertask outcome" where
  "configure db self =
     (case (if startswith (job_store_address self) ''memory://'' then
              Inr new_MemoryJobStore
            else if startswith (job_store_address self) ''postgresql://'' then
              new_SQLAlchemyJobStore db (job_store_address self)
            else if startswith (job_store_address self) ''crate://'' then
              new_CrateDBSQLAlchemyJobStore db (job_store_address self)
            else Inl RuntimeError) of
        Inl e \<Rightarrow> Inl (e, self)
      | Inr store \<Rightarrow>
          let store' =
                (if pre_delete_jobs self then
                   (case remove_all_jobs store of Inl e \<Rightarrow> store | Inr cleared \<Rightarrow> cleared)
                 else store)
          in Inr (self\<lparr>scheduler := Some (BackgroundScheduler
                [(''default'', ThreadPoolExecutor 20), (''processpool'', ProcessPoolExecutor 5)]
                \<lparr>coalesce = False, max_instances = 1\<rparr>
                [(''default'', store')]
                ''Europe/Vienna'')\<rparr>))"

text \<open>
  \<open>Supertask(job_store_address, pre_delete_jobs=False)\<close>. The second argument is \<open>None\<close>
  when the caller leaves it out.
\<close>

definition Supertask :: "database \<Rightarrow> string \<Rightarrow> bool option \<Rightarrow> supertask outcome" where
  "Supertask db address flag =
     configure db
       \<lparr>job_store_address = address,
        pre_delete_jobs = (case flag of None \<Rightarrow> False | Some b \<Rightarrow> b),
        scheduler = None\<rparr>"

text \<open>\<open>a, b, c, d, e = xs\<close> raises \<open>ValueError\<close> unless \<open>xs\<close> has exactly five items.\<close>

fun unpack5 :: "'a list \<Rightarrow> py_error + ('a \<times> 'a \<times> 'a \<times> 'a \<times> 'a)" where
  "unpack5 [a, b, c, d, e] = Inr (a, b, c, d, e)"
| "unpack5 xs = Inl ValueError"

text \<open>
  The loop of \<open>seed_jobs\<close> over the job definitions that \<open>get_db()\<close> returned. An exception
  leaves the loop at once.
\<close>

fun seed_loop :: "(cron_fields \<Rightarrow> bool) \<Rightarrow> cronjob list \<Rightarrow> supertask \<Rightarrow> supertask outcome" where
  "seed_loop accepts [] self = Inr self"
| "seed_loop accepts (c # cs) self =
     (if enabled c then
        (case unpack5 (str_split (crontab c)) of
           Inl e \<Rightarrow> Inl (e, self)
         | Inr (mi, ho, da, mo, dw) \<Rightarrow>
             (case scheduler self of
                None \<Rightarrow> Inl (AttributeError, self)
              | Some sch \<Rightarrow>
                  (case add_job accepts sch ''my_job''
                          \<lparr>minute = mi, hour = ho, day = da, month = mo, day_of_week = dw\<rparr>
                          (str (id' c)) ''default'' [job c] 4 of
                     Inl e \<Rightarrow> Inl (e, self)
                   | Inr sch' \<Rightarrow> seed_loop accepts cs (self\<lparr>scheduler := Some sch'\<rparr>))))
      else seed_loop accepts cs self)"

text \<open>
  What the process finds around it: the world behind a durable store address; the job
  definitions that \<open>get_db()\<close> reads from the definition file (the repository's module
  \<open>database\<close> is not among the sources, so what it returns is taken as given); the cron
  fields the library accepts; and the exception, if any, that bringing up the file
  observer and the HTTP server thread raises.
\<close>

record env =
  database :: database
  get_db :: "cronjob list"
  accepts_fields :: "cron_fields \<Rightarrow> bool"
  observer_error :: "py_error option"
  http_error :: "py_error option"

definition seed_jobs :: "env \<Rightarrow> supertask \<Rightarrow> supertask outcome" where
  "seed_jobs w self = seed_loop (accepts_fields w) (get_db w) self"

text \<open>
  \<open>start_scheduler\<close> starts the scheduler and then only prints; the other two services
  are built from new objects and leave \<open>self\<close> as it is.
\<close>

definition start_scheduler :: "supertask \<Rightarrow> supertask outcome" where
  "start_scheduler self =
     (case scheduler self of
        None \<Rightarrow> Inl (AttributeError, self)
      | Some sch \<Rightarrow>
          (case scheduler_start sch of
             Inl (e, sch') \<Rightarrow> Inl (e, self\<lparr>scheduler := Some sch'\<rparr>)
           | Inr sch' \<Rightarrow> Inr (self\<lparr>scheduler := Some sch'\<rparr>)))"

definition start_filesystem_observer :: "env \<Rightarrow> supertask \<Rightarrow> supertask outcome" where
  "start_filesystem_observer w self =
     (case observer_error w of Some e \<Rightarrow> Inl (e, self) | None \<Rightarrow> Inr self)"

definition start_http_service :: "env \<Rightarrow> supertask \<Rightarrow> supertask outcome" where
  "start_http_service w self =
     (case http_error w of Some e \<Rightarrow> Inl (e, self) | None \<Rightarrow> Inr self)"

definition start :: "env \<Rightarrow> supertask \<Rightarrow> supertask outcome" where
  "start w self =
     (case start_scheduler self of
        Inl x \<Rightarrow> Inl x
      | Inr self1 \<Rightarrow>
          (case start_filesystem_observer w self1 of
             Inl x \<Rightarrow> Inl x
           | Inr self2 \<Rightarrow> start_http_service w self2))"

text \<open>\<open>run_supertask(job_store_address, pre_delete_jobs=False)\<close>.\<close>

definition run_supertask :: "env \<Rightarrow> string \<Rightarrow> bool option \<Rightarrow> supertask outcome" where
  "run_supertask w address flag =
     (case Supertask (database w) address flag of
        Inl x \<Rightarrow> Inl x
      | Inr st \<Rightarrow>
          (case seed_jobs w st of
             Inl x \<Rightarrow> Inl x
           | Inr st' \<Rightarrow> start w st'))"

section \<open>Observations\<close>

text \<open>The exception an outcome carries, and the object it leaves.\<close>

definition raised :: "'s outcome \<Rightarrow> py_error option" where
  "raised out = (case out of Inl (e, s) \<Rightarrow> Some e | Inr s \<Rightarrow> None)"

definition final :: "'s outcome \<Rightarrow> 's" where
  "final out = (case out of Inl (e, s) \<Rightarrow> s | Inr s \<Rightarrow> s)"

text \<open>The jobs queued in the scheduler of a supertask, none when it has no scheduler.\<close>

definition queued :: "supertask \<Rightarrow> scheduled_job list" where
  "queued self = (case scheduler self of None \<Rightarrow> [] | Some sch \<Rightarrow> map fst (pending_jobs sch))"

definition scheduled_ids :: "supertask \<Rightarrow> string list" where
  "scheduled_ids self = map job_id (queued self)"

text \<open>
  The limit of simultaneous instances of each queued job: its own \<open>max_instances\<close> when
  one was passed to \<open>add_job\<close>, the scheduler's default otherwise.
\<close>

definition scheduled_limits :: "supertask \<Rightarrow> nat list" where
  "scheduled_limits self =
     (case scheduler self of
        None \<Rightarrow> []
      | Some sch \<Rightarrow>
          map (\<lambda>j. case job_max_instances j of
                     None \<Rightarrow> max_instances (job_defaults sch)
                   | Some n \<Rightarrow> n)
              (map fst (pending_jobs sch)))"

definition scheduled_timezones :: "supertask \<Rightarrow> string list" where
  "scheduled_timezones self = map (\<lambda>j. trigger_timezone (trigger j)) (queued self)"

text \<open>The backend and the persisted jobs of the scheduler's default job store.\<close>

definition default_store :: "supertask \<Rightarrow> job_store option" where
  "default_store self =
     (case scheduler self of None \<Rightarrow> None | Some sch \<Rightarrow> map_of (jobstores sch) ''default'')"

definition selected_backend :: "supertask outcome \<Rightarrow> backend option" where
  "selected_backend out =
     (case out of Inl x \<Rightarrow> None | Inr self \<Rightarrow> map_option backend (default_store self))"

text \<open>The default limit of simultaneous instances and the timezone of the scheduler.\<close>

definition default_limit :: "supertask \<Rightarrow> nat option" where
  "default_limit self = map_option (\<lambda>sch. max_instances (job_defaults sch)) (scheduler self)"

definition scheduler_timezone :: "supertask \<Rightarrow> string option" where
  "scheduler_timezone self = map_option timezone (scheduler self)"

text \<open>
  Whether the iteration of the seeding loop for a job definition raises: the definition
  is enabled, and its crontab does not split into five fields or the library does not
  accept them.
\<close>

definition seeding_raises :: "(cron_fields \<Rightarrow> bool) \<Rightarrow> cronjob \<Rightarrow> bool" where
  "seeding_raises accepts c =
     (enabled c \<and>
      (case unpack5 (str_split (crontab c)) of
         Inl e \<Rightarrow> True
       | Inr (mi, ho, da, mo, dw) \<Rightarrow>
           \<not> accepts \<lparr>minute = mi, hour = ho, day = da, month = mo, day_of_week = dw\<rparr>))"

section \<open>Sample inputs\<close>

text \<open>
  A library that accepts every cron field text; an engine builder that accepts every
  address but the one whose port is not a number, where it raises \<open>ValueError\<close>; a job
  definition with the given id, crontab and enabled flag; a database, reachable or not,
  that holds one job from an earlier run; and a process environment over them in which
  the file observer and the HTTP server come up.
\<close>

definition accepts_any :: "cron_fields \<Rightarrow> bool" where
  "accepts_any cf = True"

definition sample_engine :: "string \<Rightarrow> py_error option" where
  "sample_engine address =
     (if address = ''postgresql://localhost:abc/db'' then Some ValueError else None)"

definition sample_job :: "int \<Rightarrow> string \<Rightarrow> bool \<Rightarrow> cronjob" where
  "sample_job i c e =
     \<lparr>id' = i, crontab = c, job = ''echo'', enabled = e, last_run = None, last_status = None\<rparr>"

definition stored_job :: scheduled_job where
  "stored_job =
     \<lparr>job_id = ''7'', func = ''my_job'',
      trigger = \<lparr>minute = ''0'', hour = ''*'', day = ''*'', month = ''*'', day_of_week = ''*'',
                 trigger_timezone = ''Europe/Vienna''\<rparr>,
      args = [''echo''], job_max_instances = Some 4, job_coalesce = Some False\<rparr>"

definition sample_db :: "bool \<Rightarrow> database" where
  "sample_db up = \<lparr>db_jobs = [stored_job], db_up = up, create_engine = sample_engine\<rparr>"

definition sample_env :: "database \<Rightarrow> cronjob list \<Rightarrow> env" where
  "sample_env db cs =
     \<lparr>database = db, get_db = cs, accepts_fields = accepts_any,
      observer_error = None, http_error = None\<rparr>"

section \<open>Properties of the matcher\<close>

lemma in_rems_Digit:
  "t \<in> set (rems Digit s) \<longleftrightarrow> (\<exists>c. s = c # t \<and> isdigit c)"
  by (cases s) (auto simp add: rems.simps(1))

lemma in_rems_Lit:
  "t \<in> set (rems (Lit a) s) \<longleftrightarrow> s = a # t"
  by (cases s) (auto simp add: rems.simps(2))

lemma in_rems_Seq:
  "t \<in> set (rems (Seq a b) s) \<longleftrightarrow> (\<exists>u \<in> set (rems a s). t \<in> set (rems b u))"
  by (simp add: rems.simps(3))

lemma in_rems_Alt:
  "t \<in> set (rems (Alt a b) s) \<longleftrightarrow> t \<in> set (rems a s) \<or> t \<in> set (rems b s)"
  by (simp add: rems.simps(4))

lemma in_rems_Opt:
  "t \<in> set (rems (Opt a) s) \<longleftrightarrow> t \<in> set (rems a s) \<or> t = s"
  by (auto simp add: rems.simps(5))

lemma in_rems_Plus:
  "t \<in> set (rems (Plus a) s) \<longleftrightarrow>
     (\<exists>u \<in> set (rems a s). t = u \<or> (length u < length s \<and> t \<in> set (rems (Plus a) u)))"
  by (subst rems.simps(6)) auto

lemma in_rems_Rep:
  "t \<in> set (rems (Rep m n a) s) \<longleftrightarrow>
     (n \<noteq> 0 \<and> (\<exists>u \<in> set (rems a s). t \<in> set (rems (Rep (m - 1) (n - 1) a) u))) \<or>
     (m = 0 \<and> t = s)"
  by (subst rems.simps(7)) auto


text \<open>\<open>rems\<close> is sound and complete for the strings that the expression matches.\<close>

lemma rems_sound: "t \<in> set (rems r s) \<Longrightarrow> \<exists>u. matches r u \<and> s = u @ t"
proof (induction r s arbitrary: t rule: rems.induct)
  case (1 s)
  then show ?case unfolding in_rems_Digit by (auto intro: matches.Digit)
next
  case (2 a s)
  then show ?case unfolding in_rems_Lit by (auto intro: matches.Lit)
next
  case (3 a b s)
  from "3.prems" obtain w where w: "w \<in> set (rems a s)" and t: "t \<in> set (rems b w)"
    unfolding in_rems_Seq by blast
  from "3.IH"(1) [OF w] obtain u where u: "matches a u" "s = u @ w" by blast
  from "3.IH"(2) [OF w t] obtain v where v: "matches b v" "w = v @ t" by blast
  from u v have "matches (Seq a b) (u @ v)" "s = (u @ v) @ t"
    by (auto intro: matches.Seq)
  then show ?case by blast
next
  case (4 a b s)
  then show ?case unfolding in_rems_Alt by (blast intro: matches.AltL matches.AltR)
next
  case (5 a s)
  from "5.prems" consider "t \<in> set (rems a s)" | "t = s" unfolding in_rems_Opt by blast
  then show ?case
  proof cases
    case 1
    from "5.IH" [OF 1] show ?thesis by (blast intro: matches.OptSome)
  next
    case 2
    have "matches (Opt a) []" by (rule matches.OptNone)
    with 2 show ?thesis by force
  qed
next
  case (6 a s)
  from "6.prems" obtain w where w: "w \<in> set (rems a s)"
    and t: "t = w \<or> (length w < length s \<and> t \<in> set (rems (Plus a) w))"
    by (subst (asm) in_rems_Plus) blast
  from "6.IH"(1) [OF w] obtain u where u: "matches a u" "s = u @ w" by blast
  show ?case
  proof (cases "t = w")
    case True
    with u show ?thesis by (blast intro: matches.PlusOne)
  next
    case False
    with t have lt: "length w < length s" and tin: "t \<in> set (rems (Plus a) w)" by blast+
    from "6.IH"(2) [OF w lt tin] obtain v where v: "matches (Plus a) v" "w = v @ t" by blast
    from u v have "matches (Plus a) (u @ v)" "s = (u @ v) @ t"
      by (auto intro: matches.PlusMore)
    then show ?thesis by blast
  qed
next
  case (7 m n a s)
  from "7.prems" consider
    (more) w where "n \<noteq> 0" "w \<in> set (rems a s)" "t \<in> set (rems (Rep (m - 1) (n - 1) a) w)"
    | (stop) "m = 0" "t = s"
    by (subst (asm) in_rems_Rep) blast
  then show ?case
  proof cases
    case more
    from "7.IH"(1) [OF more(1) more(2)] obtain u where u: "matches a u" "s = u @ w" by blast
    from "7.IH"(2) [OF more(1) more(2) more(3)] obtain v where
      v: "matches (Rep (m - 1) (n - 1) a) v" "w = v @ t" by blast
    from more(1) u v have "matches (Rep m n a) (u @ v)" "s = (u @ v) @ t"
      by (auto intro: matches.RepMore)
    then show ?thesis by blast
  next
    case stop
    have "matches (Rep 0 n a) []" by (rule matches.RepStop)
    with stop show ?thesis by force
  qed
qed

lemma rems_complete: "matches r u \<Longrightarrow> t \<in> set (rems r (u @ t))"
proof (induction r u arbitrary: t rule: matches.induct)
  case (Digit c)
  then show ?case by (simp add: in_rems_Digit)
next
  case (Lit a)
  show ?case by (simp add: in_rems_Lit)
next
  case (Seq a u b v)
  have "v @ t \<in> set (rems a (u @ v @ t))" by (rule Seq.IH(1))
  moreover have "t \<in> set (rems b (v @ t))" by (rule Seq.IH(2))
  ultimately show ?case unfolding in_rems_Seq by auto
next
  case (AltL a u b)
  then show ?case unfolding in_rems_Alt by blast
next
  case (AltR b u a)
  then show ?case unfolding in_rems_Alt by blast
next
  case (OptSome a u)
  then show ?case unfolding in_rems_Opt by blast
next
  case (OptNone a)
  show ?case unfolding in_rems_Opt by simp
next
  case (PlusOne a u)
  have "t \<in> set (rems a (u @ t))" by (rule PlusOne.IH)
  then show ?case by (subst in_rems_Plus) blast
next
  case (PlusMore a u v)
  have 1: "v @ t \<in> set (rems a (u @ v @ t))" by (rule PlusMore.IH(1))
  have 2: "t \<in> set (rems (Plus a) (v @ t))" by (rule PlusMore.IH(2))
  show ?case
  proof (cases "u = []")
    case True
    with 2 show ?thesis by simp
  next
    case False
    then have lt: "length (v @ t) < length ((u @ v) @ t)" by simp
    have "\<exists>w \<in> set (rems a ((u @ v) @ t)).
            t = w \<or> (length w < length ((u @ v) @ t) \<and> t \<in> set (rems (Plus a) w))"
    proof (rule bexI [of _ "v @ t"])
      show "t = v @ t \<or> (length (v @ t) < length ((u @ v) @ t) \<and> t \<in> set (rems (Plus a) (v @ t)))"
        using lt 2 by blast
      show "v @ t \<in> set (rems a ((u @ v) @ t))" using 1 by simp
    qed
    then show ?thesis by (subst in_rems_Plus)
  qed
next
  case (RepStop n a)
  show ?case by (subst in_rems_Rep) simp
next
  case (RepMore n a u m v)
  have 1: "v @ t \<in> set (rems a (u @ v @ t))" by (rule RepMore.IH(1))
  have 2: "t \<in> set (rems (Rep (m - 1) (n - 1) a) (v @ t))" by (rule RepMore.IH(2))
  from RepMore.hyps(1) 1 2 show ?case by (subst in_rems_Rep) auto
qed

lemma re_match_iff: "re_match r s \<longleftrightarrow> (\<exists>u t. matches r u \<and> s = u @ t)"
proof
  assume "re_match r s"
  then obtain t where "t \<in> set (rems r s)"
    by (cases "rems r s") (auto simp: re_match_def)
  then show "\<exists>u t. matches r u \<and> s = u @ t" using rems_sound by blast
next
  assume "\<exists>u t. matches r u \<and> s = u @ t"
  then obtain u t where "matches r u" "s = u @ t" by blast
  then have "t \<in> set (rems r s)" using rems_complete by blast
  then show "re_match r s" by (auto simp: re_match_def)
qed


section \<open>The crontab validator\<close>

text \<open>
  C3. The claim: \<open>validate_crontab\<close> applied to \<open>*/5 * * * *\<close> does not raise and returns
  the string. The code raises \<open>ValueError\<close> instead: after the star of \<open>*/5\<close> the pattern
  admits an optional space and then another field, none of which starts with a slash, so
  one repetition is found where five are needed. The same text splits into the five
  fields that \<open>seed_jobs\<close> hands to the scheduler.
\<close>

theorem validate_crontab_star_step:
  "validate_crontab ''*/5 * * * *'' = Inl ValueError \<and>
   str_split ''*/5 * * * *'' = [''*/5'', ''*'', ''*'', ''*'', ''*'']"
  by code_simp



section \<open>Properties of seeding\<close>

lemma unpack5_ValueError: "length xs \<noteq> 5 \<Longrightarrow> unpack5 xs = Inl ValueError"
  by (induction xs rule: unpack5.induct) auto

lemma unpack5_error: "unpack5 xs = Inl e \<Longrightarrow> e = ValueError"
  by (induction xs rule: unpack5.induct) auto

lemma seed_loop_append:
  "seed_loop acc (xs @ ys) self =
     (case seed_loop acc xs self of Inl x \<Rightarrow> Inl x | Inr self' \<Rightarrow> seed_loop acc ys self')"
  by (induction xs arbitrary: self) (auto split: sum.splits option.splits prod.splits)

lemma seed_loop_malformed:
  "enabled c \<Longrightarrow> length (str_split (crontab c)) \<noteq> 5 \<Longrightarrow>
   seed_loop acc (c # cs) self = Inl (ValueError, self)"
  by (simp add: unpack5_ValueError)

lemma seed_loop_stops:
  assumes "enabled c" and "length (str_split (crontab c)) \<noteq> 5"
  shows "seed_loop acc (pre @ c # post) self =
           (case seed_loop acc pre self of
              Inl x \<Rightarrow> Inl x
            | Inr self' \<Rightarrow> Inl (ValueError, self'))"
proof -
  have h: "seed_loop acc (c # post) st = Inl (ValueError, st)" for st
    using assms by (rule seed_loop_malformed)
  show ?thesis
    by (cases "seed_loop acc pre self") (simp_all only: seed_loop_append h sum.case)
qed

text \<open>One iteration of the loop on a scheduler that has not been started.\<close>

lemma seed_loop_raises:
  assumes "seeding_raises acc c" and "scheduler self = Some sch"
  shows "seed_loop acc (c # cs) self = Inl (ValueError, self)"
proof (cases "unpack5 (str_split (crontab c))")
  case (Inl e)
  then have "e = ValueError" by (rule unpack5_error)
  with Inl assms show ?thesis by (simp add: seeding_raises_def)
next
  case (Inr p)
  obtain mi ho da mo dw where p: "p = (mi, ho, da, mo, dw)" by (cases p) auto
  from assms(1) Inr p
  have "\<not> acc \<lparr>minute = mi, hour = ho, day = da, month = mo, day_of_week = dw\<rparr>"
    by (simp add: seeding_raises_def)
  with Inr p assms show ?thesis by (simp add: seeding_raises_def add_job_def)
qed

lemma seed_loop_queues:
  assumes "enabled c" and "\<not> seeding_raises acc c"
    and "scheduler self = Some sch" and "\<not> running sch"
  shows "\<exists>mi ho da mo dw.
           seed_loop acc (c # cs) self =
             seed_loop acc cs (self\<lparr>scheduler := Some (sch\<lparr>pending_jobs := pending_jobs sch @
               [(\<lparr>job_id = str (id' c), func = ''my_job'',
                  trigger = \<lparr>minute = mi, hour = ho, day = da, month = mo, day_of_week = dw,
                             trigger_timezone = timezone sch\<rparr>,
                  args = [job c], job_max_instances = Some 4, job_coalesce = None\<rparr>,
                 ''default'', False)]\<rparr>)\<rparr>)"
proof (cases "unpack5 (str_split (crontab c))")
  case (Inl e)
  with assms(1,2) show ?thesis by (simp add: seeding_raises_def)
next
  case (Inr p)
  obtain mi ho da mo dw where p: "p = (mi, ho, da, mo, dw)" by (cases p) auto
  from assms(1,2) Inr p
  have "acc \<lparr>minute = mi, hour = ho, day = da, month = mo, day_of_week = dw\<rparr>"
    by (simp add: seeding_raises_def)
  with Inr p assms have "seed_loop acc (c # cs) self =
             seed_loop acc cs (self\<lparr>scheduler := Some (sch\<lparr>pending_jobs := pending_jobs sch @
               [(\<lparr>job_id = str (id' c), func = ''my_job'',
                  trigger = \<lparr>minute = mi, hour = ho, day = da, month = mo, day_of_week = dw,
                             trigger_timezone = timezone sch\<rparr>,
                  args = [job c], job_max_instances = Some 4, job_coalesce = None\<rparr>,
                 ''default'', False)]\<rparr>)\<rparr>)"
    by (simp add: add_job_def Let_def)
  then show ?thesis by (intro exI)
qed

text \<open>
  What the loop leaves on a scheduler that has not been started, however it ends: the
  scheduler as it was but for the queue, which has grown by one job for each enabled
  definition that comes before the first definition whose iteration raises. The loop
  returns iff no iteration raises, and raises \<open>ValueError\<close> otherwise. Each new job has the
  limit 4, the scheduler's timezone and the default job store.
\<close>

lemma seed_loop_final:
  assumes "scheduler self = Some sch" and "\<not> running sch"
  shows "\<exists>new sch'.
           raised (seed_loop acc cs self) =
             (if list_all (\<lambda>c. \<not> seeding_raises acc c) cs then None else Some ValueError) \<and>
           job_store_address (final (seed_loop acc cs self)) = job_store_address self \<and>
           pre_delete_jobs (final (seed_loop acc cs self)) = pre_delete_jobs self \<and>
           scheduler (final (seed_loop acc cs self)) = Some sch' \<and>
           executors sch' = executors sch \<and> job_defaults sch' = job_defaults sch \<and>
           jobstores sch' = jobstores sch \<and> timezone sch' = timezone sch \<and>
           running sch' = running sch \<and>
           pending_jobs sch' = pending_jobs sch @ new \<and>
           map (\<lambda>e. job_id (fst e)) new =
             map (\<lambda>c. str (id' c))
               (filter enabled (takeWhile (\<lambda>c. \<not> seeding_raises acc c) cs)) \<and>
           list_all (\<lambda>e. job_max_instances (fst e) = Some 4 \<and>
                          trigger_timezone (trigger (fst e)) = timezone sch \<and>
                          snd e = (''default'', False)) new"
    (is "\<exists>new sch'. ?P cs self sch new sch'")
  using assms
proof (induction cs arbitrary: self sch)
  case Nil
  then show ?case by (simp add: raised_def final_def)
next
  case (Cons c cs)
  show ?case
  proof (cases "enabled c")
    case False
    then have nr: "\<not> seeding_raises acc c" by (simp add: seeding_raises_def)
    from Cons.IH [OF Cons.prems] obtain new where "\<exists>sch'. ?P cs self sch new sch'" ..
    then obtain sch' where ih: "?P cs self sch new sch'" ..
    have eq: "seed_loop acc (c # cs) self = seed_loop acc cs self" using False by simp
    have "?P (c # cs) self sch new sch'"
      using ih False nr by (simp add: eq del: seed_loop.simps)
    then show ?thesis by (intro exI)
  next
    case True
    show ?thesis
    proof (cases "seeding_raises acc c")
      case r: True
      have stop: "seed_loop acc (c # cs) self = Inl (ValueError, self)"
        using r Cons.prems(1) by (rule seed_loop_raises)
      have "?P (c # cs) self sch [] sch"
        using Cons.prems r by (simp add: stop raised_def final_def del: seed_loop.simps)
      then show ?thesis by (intro exI)
    next
      case r: False
      from seed_loop_queues [OF True r Cons.prems, of cs]
      obtain mi ho da mo dw where
        step0: "seed_loop acc (c # cs) self =
             seed_loop acc cs (self\<lparr>scheduler := Some (sch\<lparr>pending_jobs := pending_jobs sch @
               [(\<lparr>job_id = str (id' c), func = ''my_job'',
                  trigger = \<lparr>minute = mi, hour = ho, day = da, month = mo, day_of_week = dw,
                             trigger_timezone = timezone sch\<rparr>,
                  args = [job c], job_max_instances = Some 4, job_coalesce = None\<rparr>,
                 ''default'', False)]\<rparr>)\<rparr>)"
        by blast
      define e where "e =
        (\<lparr>job_id = str (id' c), func = ''my_job'',
          trigger = \<lparr>minute = mi, hour = ho, day = da, month = mo, day_of_week = dw,
                     trigger_timezone = timezone sch\<rparr>,
          args = [job c], job_max_instances = Some 4, job_coalesce = None\<rparr>,
         ''default'', False)"
      define sch1 where "sch1 = sch\<lparr>pending_jobs := pending_jobs sch @ [e]\<rparr>"
      define self1 where "self1 = self\<lparr>scheduler := Some sch1\<rparr>"
      have step: "seed_loop acc (c # cs) self = seed_loop acc cs self1"
        using step0 by (simp add: e_def sch1_def self1_def del: seed_loop.simps)
      have s1: "scheduler self1 = Some sch1" by (simp add: self1_def)
      have r1: "\<not> running sch1" using Cons.prems(2) by (simp add: sch1_def)
      from Cons.IH [OF s1 r1] obtain new where "\<exists>sch'. ?P cs self1 sch1 new sch'" ..
      then obtain sch' where ih: "?P cs self1 sch1 new sch'" ..
      have "?P (c # cs) self sch (e # new) sch'"
        using ih True r by (simp add: step self1_def sch1_def e_def del: seed_loop.simps)
      then show ?thesis by (intro exI)
    qed
  qed
qed

lemma seed_loop_skips:
  assumes "\<not> enabled c"
  shows "seed_loop acc (pre @ c # post) self =
           (case seed_loop acc pre self of
              Inl x \<Rightarrow> Inl x
            | Inr self' \<Rightarrow> seed_loop acc post self')"
proof -
  have h: "seed_loop acc (c # post) st = seed_loop acc post st" for st
    using assms by simp
  show ?thesis
    by (cases "seed_loop acc pre self") (simp_all only: seed_loop_append h sum.case)
qed

text \<open>
  C2. The claim: for every crontab with only three whitespace-separated fields, validating
  or writing a job with it fails with the invalid-schedule error, and the job never enters
  the store or the schedule. As stated it fails: \<open>validate_crontab\<close> returns the three-field
  \<open>12345 1 1\<close>, and seeding a disabled job with the three-field \<open>*/5 * *\<close> returns with no
  error.
\<close>

theorem three_fields_counterexample:
  "length (str_split ''12345 1 1'') = 3 \<and>
   validate_crontab ''12345 1 1'' = Inr ''12345 1 1'' \<and>
   length (str_split ''*/5 * *'') = 3 \<and>
   raised (seed_jobs (sample_env (sample_db True) [sample_job 1 ''*/5 * *'' False])
             (final (Supertask (sample_db True) ''memory://'' None))) = None"
  by code_simp

text \<open>
  C2, amended. \<open>validate_crontab\<close> rejects \<open>*/5 * *\<close> with \<open>ValueError\<close>. When a job
  definition of the seed set has a crontab of exactly three whitespace-separated fields,
  seeding reaches it only if the definitions before it raised nothing; if it is enabled,
  seeding raises \<open>ValueError\<close> there and leaves the supertask as those earlier definitions
  left it; if it is disabled, seeding goes on as if the definition were absent. Either
  way it is not scheduled.
\<close>

theorem three_fields_not_seeded:
  assumes "length (str_split (crontab c)) = 3" and "get_db w = pre @ c # post"
  shows "validate_crontab ''*/5 * *'' = Inl ValueError \<and>
         seed_jobs w self =
           (case seed_loop (accepts_fields w) pre self of
              Inl x \<Rightarrow> Inl x
            | Inr self' \<Rightarrow>
                if enabled c then Inl (ValueError, self')
                else seed_loop (accepts_fields w) post self')"
proof -
  have v: "validate_crontab ''*/5 * *'' = Inl ValueError" by code_simp
  from assms(1) have n5: "length (str_split (crontab c)) \<noteq> 5" by simp
  have "seed_loop (accepts_fields w) (pre @ c # post) self =
           (case seed_loop (accepts_fields w) pre self of
              Inl x \<Rightarrow> Inl x
            | Inr self' \<Rightarrow>
                if enabled c then Inl (ValueError, self')
                else seed_loop (accepts_fields w) post self')"
  proof (cases "enabled c")
    case True
    then show ?thesis by (simp add: seed_loop_stops [OF True n5] split: sum.splits)
  next
    case False
    then show ?thesis by (simp add: seed_loop_skips [OF False] split: sum.splits)
  qed
  with v show ?thesis by (simp add: seed_jobs_def assms(2))
qed

theorem three_fields_not_seeded_witness:
  "length (str_split (crontab (sample_job 2 ''*/5 * *'' True))) = 3 \<and>
   raised (seed_jobs
     (sample_env (sample_db True)
        [sample_job 1 ''0 * * * *'' True, sample_job 2 ''*/5 * *'' True,
         sample_job 3 ''* * * * *'' True])
     (final (Supertask (sample_db True) ''memory://'' None))) = Some ValueError \<and>
   scheduled_ids (final (seed_jobs
     (sample_env (sample_db True)
        [sample_job 1 ''0 * * * *'' True, sample_job 2 ''*/5 * *'' True,
         sample_job 3 ''* * * * *'' True])
     (final (Supertask (sample_db True) ''memory://'' None)))) = [''1'']"
proof -
  let ?c = "sample_job 2 ''*/5 * *'' True"
  let ?w = "sample_env (sample_db True)
        [sample_job 1 ''0 * * * *'' True, sample_job 2 ''*/5 * *'' True,
         sample_job 3 ''* * * * *'' True]"
  let ?self = "final (Supertask (sample_db True) ''memory://'' None)"
  have h1: "length (str_split (crontab ?c)) = 3" by code_simp
  have h2: "get_db ?w = [sample_job 1 ''0 * * * *'' True] @ ?c # [sample_job 3 ''* * * * *'' True]"
    by (simp add: sample_env_def)
  have en: "enabled ?c" by (simp add: sample_job_def)
  have eq: "seed_jobs ?w ?self =
      (case seed_loop (accepts_fields ?w) [sample_job 1 ''0 * * * *'' True] ?self of
         Inl x \<Rightarrow> Inl x
       | Inr self' \<Rightarrow> Inl (ValueError, self'))"
    using three_fields_not_seeded [OF h1 h2, of ?self] by (simp only: en if_True)
  have r: "raised (case seed_loop (accepts_fields ?w) [sample_job 1 ''0 * * * *'' True] ?self of
         Inl x \<Rightarrow> Inl x
       | Inr self' \<Rightarrow> Inl (ValueError, self')) = Some ValueError"
    by code_simp
  have i: "scheduled_ids (final (case seed_loop (accepts_fields ?w) [sample_job 1 ''0 * * * *'' True] ?self of
         Inl x \<Rightarrow> Inl x
       | Inr self' \<Rightarrow> Inl (ValueError, self'))) = [''1'']"
    by code_simp
  from h1 r i show ?thesis unfolding eq by blast
qed

section \<open>Properties of configuration\<close>

lemma startswith_exclusive:
  "\<not> (startswith a ''memory://'' \<and> startswith a ''postgresql://'')"
  "\<not> (startswith a ''memory://'' \<and> startswith a ''crate://'')"
  "\<not> (startswith a ''postgresql://'' \<and> startswith a ''crate://'')"
  by (cases a; simp add: startswith_def)+

text \<open>
  What a successful configuration leaves: a scheduler that has not been started, with
  nothing queued and one job store.
\<close>

lemma configure_Inr:
  assumes "configure db self = Inr st"
  shows "\<exists>sch store. scheduler st = Some sch \<and> pending_jobs sch = [] \<and>
           timezone sch = ''Europe/Vienna'' \<and>
           job_defaults sch = \<lparr>coalesce = False, max_instances = 1\<rparr> \<and>
           jobstores sch = [(''default'', store)] \<and> \<not> running sch"
  using assms
  by (auto simp: configure_def BackgroundScheduler_def Let_def
      split: if_splits sum.splits)

lemma Supertask_Inr:
  assumes "Supertask db address flag = Inr st"
  shows "\<exists>sch store. scheduler st = Some sch \<and> pending_jobs sch = [] \<and>
           timezone sch = ''Europe/Vienna'' \<and>
           job_defaults sch = \<lparr>coalesce = False, max_instances = 1\<rparr> \<and>
           jobstores sch = [(''default'', store)] \<and> \<not> running sch"
  using assms unfolding Supertask_def by (rule configure_Inr)

text \<open>The job store that a successful configuration puts into the scheduler.\<close>

lemma constructed_store:
  assumes "(if startswith a ''memory://'' then Inr new_MemoryJobStore
            else if startswith a ''postgresql://'' then new_SQLAlchemyJobStore db a
            else if startswith a ''crate://'' then new_CrateDBSQLAlchemyJobStore db a
            else Inl RuntimeError) = Inr store"
  shows "available store = (backend store = MemoryJobStore \<or> db_up db) \<and>
         jobs store = (if backend store = MemoryJobStore then [] else db_jobs db)"
proof (cases "startswith a ''memory://''")
  case True
  with assms have "store = new_MemoryJobStore" by simp
  then show ?thesis by (simp add: new_MemoryJobStore_def)
next
  case False
  note nm = this
  show ?thesis
  proof (cases "startswith a ''postgresql://''")
    case True
    with assms nm have "new_SQLAlchemyJobStore db a = Inr store" by simp
    then have "store = \<lparr>backend = SQLAlchemyJobStore, url = Some a, jobs = db_jobs db,
                         available = db_up db\<rparr>"
      by (simp add: new_SQLAlchemyJobStore_def split: option.splits)
    then show ?thesis by simp
  next
    case False
    with assms nm have c: "startswith a ''crate://''" by (simp split: if_splits)
    with assms nm False have "new_CrateDBSQLAlchemyJobStore db a = Inr store" by simp
    then have "store = \<lparr>backend = CrateDBSQLAlchemyJobStore, url = Some a, jobs = db_jobs db,
                         available = db_up db\<rparr>"
      by (simp add: new_CrateDBSQLAlchemyJobStore_def split: option.splits)
    then show ?thesis by simp
  qed
qed

lemma configure_store:
  assumes "configure db self = Inr st"
  shows "\<exists>sch store. scheduler st = Some sch \<and> jobstores sch = [(''default'', store)] \<and>
           available store = (backend store = MemoryJobStore \<or> db_up db) \<and>
           jobs store =
             (if backend store = MemoryJobStore then []
              else if pre_delete_jobs self \<and> available store then []
              else db_jobs db)"
proof -
  let ?a = "job_store_address self"
  let ?pick = "if startswith ?a ''memory://'' then Inr new_MemoryJobStore
            else if startswith ?a ''postgresql://'' then new_SQLAlchemyJobStore db ?a
            else if startswith ?a ''crate://'' then new_CrateDBSQLAlchemyJobStore db ?a
            else Inl RuntimeError"
  from assms obtain s0 where s0: "?pick = Inr s0"
    unfolding configure_def by (cases ?pick) auto
  let ?s1 = "if pre_delete_jobs self
             then (case remove_all_jobs s0 of Inl e \<Rightarrow> s0 | Inr cleared \<Rightarrow> cleared)
             else s0"
  let ?sch = "BackgroundScheduler
                [(''default'', ThreadPoolExecutor 20), (''processpool'', ProcessPoolExecutor 5)]
                \<lparr>coalesce = False, max_instances = 1\<rparr>
                [(''default'', ?s1)]
                ''Europe/Vienna''"
  from assms have st: "st = self\<lparr>scheduler := Some ?sch\<rparr>"
    unfolding configure_def s0 by (simp add: Let_def)
  from constructed_store [OF s0] have
    a0: "available s0 = (backend s0 = MemoryJobStore \<or> db_up db)"
    and j0: "jobs s0 = (if backend s0 = MemoryJobStore then [] else db_jobs db)"
    by blast+
  have s1: "?s1 = (if pre_delete_jobs self \<and> available s0 then s0\<lparr>jobs := []\<rparr> else s0)"
    by (simp add: remove_all_jobs_def)
  have "scheduler st = Some ?sch" by (simp add: st)
  moreover have "jobstores ?sch = [(''default'', ?s1)]" by (simp add: BackgroundScheduler_def)
  moreover have "available ?s1 = (backend ?s1 = MemoryJobStore \<or> db_up db)"
    unfolding s1 using a0 by simp
  moreover have "jobs ?s1 =
             (if backend ?s1 = MemoryJobStore then []
              else if pre_delete_jobs self \<and> available ?s1 then []
              else db_jobs db)"
    unfolding s1 using j0 by simp
  ultimately show ?thesis by blast
qed

section \<open>The claims about seeding\<close>

text \<open>
  C5. The claim: a malformed crontab in one job definition of the seed set is contained; the
  other definitions are still scheduled. As stated it fails: with a first definition whose
  crontab has three fields and a well-formed, enabled second one, startup ends with
  \<open>ValueError\<close> and nothing is scheduled.
\<close>

theorem seeding_aborts_counterexample:
  "raised (run_supertask
     (sample_env (sample_db True)
        [sample_job 1 ''*/5 * *'' True, sample_job 2 ''* * * * *'' True])
     ''memory://'' None) = Some ValueError \<and>
   scheduled_ids (final (run_supertask
     (sample_env (sample_db True)
        [sample_job 1 ''*/5 * *'' True, sample_job 2 ''* * * * *'' True])
     ''memory://'' None)) = []"
  by code_simp

text \<open>
  C5, amended. When an enabled job definition of the seed set has a crontab that does not
  split into exactly five fields, startup does not complete: \<open>run_supertask\<close> ends with the
  exception that \<open>seed_jobs\<close> raises, which is \<open>ValueError\<close> at that definition unless an
  earlier definition raised already; the supertask is left as the definitions before it
  left it, so neither that definition nor any later one is scheduled, and \<open>start\<close> is not
  reached.
\<close>

theorem seeding_aborts:
  assumes "Supertask (database w) address flag = Inr st"
    and "get_db w = pre @ c # post"
    and "enabled c"
    and "length (str_split (crontab c)) \<noteq> 5"
  shows "run_supertask w address flag =
           (case seed_loop (accepts_fields w) pre st of
              Inl x \<Rightarrow> Inl x
            | Inr st' \<Rightarrow> Inl (ValueError, st')) \<and>
         raised (run_supertask w address flag) \<noteq> None"
proof -
  have s: "seed_jobs w st =
           (case seed_loop (accepts_fields w) pre st of
              Inl x \<Rightarrow> Inl x
            | Inr st' \<Rightarrow> Inl (ValueError, st'))"
    unfolding seed_jobs_def assms(2) by (rule seed_loop_stops [OF assms(3) assms(4)])
  then obtain x where x: "seed_jobs w st = Inl x"
    by (cases "seed_loop (accepts_fields w) pre st") auto
  have r: "run_supertask w address flag = seed_jobs w st"
    by (simp add: run_supertask_def assms(1) x)
  have "raised (run_supertask w address flag) \<noteq> None"
    unfolding r x by (cases x) (simp add: raised_def)
  with r s show ?thesis by simp
qed

theorem seeding_aborts_witness:
  "raised (run_supertask
     (sample_env (sample_db True)
        [sample_job 1 ''0 * * * *'' True, sample_job 2 ''*/5 * *'' True,
         sample_job 3 ''* * * * *'' True])
     ''memory://'' None) = Some ValueError \<and>
   scheduled_ids (final (run_supertask
     (sample_env (sample_db True)
        [sample_job 1 ''0 * * * *'' True, sample_job 2 ''*/5 * *'' True,
         sample_job 3 ''* * * * *'' True])
     ''memory://'' None)) = [''1'']"
proof -
  let ?c = "sample_job 2 ''*/5 * *'' True"
  let ?w = "sample_env (sample_db True)
        [sample_job 1 ''0 * * * *'' True, sample_job 2 ''*/5 * *'' True,
         sample_job 3 ''* * * * *'' True]"
  let ?st = "final (Supertask (sample_db True) ''memory://'' None)"
  have h1: "Supertask (database ?w) ''memory://'' None = Inr ?st" by code_simp
  have h2: "get_db ?w = [sample_job 1 ''0 * * * *'' True] @ ?c # [sample_job 3 ''* * * * *'' True]"
    by (simp add: sample_env_def)
  have h3: "enabled ?c" by (simp add: sample_job_def)
  have h4: "length (str_split (crontab ?c)) \<noteq> 5" by code_simp
  have eq: "run_supertask ?w ''memory://'' None =
      (case seed_loop (accepts_fields ?w) [sample_job 1 ''0 * * * *'' True] ?st of
         Inl x \<Rightarrow> Inl x
       | Inr st' \<Rightarrow> Inl (ValueError, st'))"
    using seeding_aborts [OF h1 h2 h3 h4] by (rule conjunct1)
  have r: "raised (case seed_loop (accepts_fields ?w) [sample_job 1 ''0 * * * *'' True] ?st of
         Inl x \<Rightarrow> Inl x
       | Inr st' \<Rightarrow> Inl (ValueError, st')) = Some ValueError"
    by code_simp
  have i: "scheduled_ids (final (case seed_loop (accepts_fields ?w) [sample_job 1 ''0 * * * *'' True] ?st of
         Inl x \<Rightarrow> Inl x
       | Inr st' \<Rightarrow> Inl (ValueError, st'))) = [''1'']"
    by code_simp
  from r i show ?thesis unfolding eq by blast
qed

text \<open>
  C8. The claim: for every job definition in the seed set, \<open>seed_jobs\<close> adds a scheduled job
  iff the definition is enabled. As stated it fails: of two enabled definitions, the first
  with a crontab of three fields, neither is scheduled.
\<close>

theorem seed_jobs_enabled_counterexample:
  "enabled (sample_job 1 ''*/5 * *'' True) \<and> enabled (sample_job 2 ''* * * * *'' True) \<and>
   scheduled_ids (final (seed_jobs
     (sample_env (sample_db True)
        [sample_job 1 ''*/5 * *'' True, sample_job 2 ''* * * * *'' True])
     (final (Supertask (sample_db True) ''memory://'' None)))) = []"
  by code_simp

text \<open>
  C8, amended. On a scheduler that has not been started, \<open>seed_jobs\<close> adds a scheduled job
  for a job definition iff the definition is enabled and comes before the first definition
  at which seeding raises (an enabled definition whose crontab does not split into five
  fields, or whose fields the library rejects): the ids it queues are, in order, those of
  the enabled definitions before that one, and of all enabled definitions when there is
  none, which is exactly when \<open>seed_jobs\<close> returns; otherwise it raises \<open>ValueError\<close>. A
  disabled definition is never scheduled.
\<close>

theorem seed_jobs_schedules:
  assumes "scheduler self = Some sch" and "\<not> running sch"
  shows "scheduled_ids (final (seed_jobs w self)) =
           scheduled_ids self @
           map (\<lambda>c. str (id' c))
             (filter enabled
                (takeWhile (\<lambda>c. \<not> seeding_raises (accepts_fields w) c) (get_db w))) \<and>
         raised (seed_jobs w self) =
           (if list_all (\<lambda>c. \<not> seeding_raises (accepts_fields w) c) (get_db w) then None
            else Some ValueError)"
proof -
  from seed_loop_final [OF assms, where cs = "get_db w" and acc = "accepts_fields w"]
  obtain new sch' where
    ret: "raised (seed_jobs w self) =
           (if list_all (\<lambda>c. \<not> seeding_raises (accepts_fields w) c) (get_db w) then None
            else Some ValueError)"
    and sch': "scheduler (final (seed_jobs w self)) = Some sch'"
    and pend: "pending_jobs sch' = pending_jobs sch @ new"
    and ids: "map (\<lambda>e. job_id (fst e)) new =
                map (\<lambda>c. str (id' c))
                  (filter enabled
                     (takeWhile (\<lambda>c. \<not> seeding_raises (accepts_fields w) c) (get_db w)))"
    unfolding seed_jobs_def by (elim exE conjE)
  have "scheduled_ids (final (seed_jobs w self)) =
           scheduled_ids self @
           map (\<lambda>c. str (id' c))
             (filter enabled
                (takeWhile (\<lambda>c. \<not> seeding_raises (accepts_fields w) c) (get_db w)))"
    using ids by (simp add: scheduled_ids_def queued_def sch' pend assms comp_def)
  with ret show ?thesis by blast
qed

theorem seed_jobs_schedules_witness:
  "raised (seed_jobs
     (sample_env (sample_db True)
        [sample_job 1 ''*/5 * * * *'' True, sample_job 2 ''* * * * *'' False,
         sample_job 13 ''0 12 * * 1-5'' True])
     (final (Supertask (sample_db True) ''memory://'' None))) = None \<and>
   scheduled_ids (final (seed_jobs
     (sample_env (sample_db True)
        [sample_job 1 ''*/5 * * * *'' True, sample_job 2 ''* * * * *'' False,
         sample_job 13 ''0 12 * * 1-5'' True])
     (final (Supertask (sample_db True) ''memory://'' None)))) = [''1'', ''13''] \<and>
   raised (seed_jobs
     (sample_env (sample_db True)
        [sample_job 1 ''*/5 * * * *'' True, sample_job 2 ''*/5 * *'' True,
         sample_job 13 ''0 12 * * 1-5'' True])
     (final (Supertask (sample_db True) ''memory://'' None))) = Some ValueError \<and>
   scheduled_ids (final (seed_jobs
     (sample_env (sample_db True)
        [sample_job 1 ''*/5 * * * *'' True, sample_job 2 ''*/5 * *'' True,
         sample_job 13 ''0 12 * * 1-5'' True])
     (final (Supertask (sample_db True) ''memory://'' None)))) = [''1'']"
proof -
  let ?w = "sample_env (sample_db True)
        [sample_job 1 ''*/5 * * * *'' True, sample_job 2 ''* * * * *'' False,
         sample_job 13 ''0 12 * * 1-5'' True]"
  let ?v = "sample_env (sample_db True)
        [sample_job 1 ''*/5 * * * *'' True, sample_job 2 ''*/5 * *'' True,
         sample_job 13 ''0 12 * * 1-5'' True]"
  let ?self = "final (Supertask (sample_db True) ''memory://'' None)"
  have "Supertask (sample_db True) ''memory://'' None = Inr ?self" by code_simp
  then obtain sch where sch: "scheduler ?self = Some sch" and nr: "\<not> running sch"
    using Supertask_Inr by blast
  have none: "scheduled_ids ?self = []" by code_simp
  have w1: "list_all (\<lambda>c. \<not> seeding_raises (accepts_fields ?w) c) (get_db ?w)"
    by code_simp
  have w2: "map (\<lambda>c. str (id' c))
             (filter enabled
                (takeWhile (\<lambda>c. \<not> seeding_raises (accepts_fields ?w) c) (get_db ?w))) =
            [''1'', ''13'']"
    by code_simp
  have v1: "\<not> list_all (\<lambda>c. \<not> seeding_raises (accepts_fields ?v) c) (get_db ?v)"
    by code_simp
  have v2: "map (\<lambda>c. str (id' c))
             (filter enabled
                (takeWhile (\<lambda>c. \<not> seeding_raises (accepts_fields ?v) c) (get_db ?v))) =
            [''1'']"
    by code_simp
  from seed_jobs_schedules [OF sch nr, of ?w] w1 w2 none
  have a: "scheduled_ids (final (seed_jobs ?w ?self)) = [''1'', ''13'']"
    and b: "raised (seed_jobs ?w ?self) = None"
    by simp_all
  from seed_jobs_schedules [OF sch nr, of ?v] v1 v2 none
  have c: "scheduled_ids (final (seed_jobs ?v ?self)) = [''1'']"
    and d: "raised (seed_jobs ?v ?self) = Some ValueError"
    by simp_all
  from a b c d show ?thesis by blast
qed

text \<open>
  C1. The claim: the concurrency limit attached to each job at seeding time is the default
  limit of 1. As stated it fails: the scheduler's default is 1, but the job seeded from one
  enabled definition carries the limit 4.
\<close>

theorem seeded_limit_counterexample:
  "default_limit (final (Supertask (sample_db True) ''memory://'' None)) = Some 1 \<and>
   scheduled_limits (final (seed_jobs
     (sample_env (sample_db True) [sample_job 1 ''*/5 * * * *'' True])
     (final (Supertask (sample_db True) ''memory://'' None)))) = [4]"
  by code_simp

text \<open>
  C1, amended. The scheduler is configured with the default limit 1, and \<open>seed_jobs\<close>
  passes the limit 4 with every job it adds: after seeding a freshly constructed
  supertask, however seeding ends, each queued job has the limit 4.
\<close>

theorem seeded_limit:
  assumes "Supertask db address flag = Inr st"
  shows "default_limit (final (seed_jobs w st)) = Some 1 \<and>
         set (scheduled_limits (final (seed_jobs w st))) \<subseteq> {4}"
proof -
  from Supertask_Inr [OF assms] obtain sch where
    sch: "scheduler st = Some sch" and empty: "pending_jobs sch = []"
    and dflt: "job_defaults sch = \<lparr>coalesce = False, max_instances = 1\<rparr>"
    and nr: "\<not> running sch"
    by blast
  from seed_loop_final [OF sch nr, where cs = "get_db w" and acc = "accepts_fields w"]
  obtain new sch' where
    sch': "scheduler (final (seed_jobs w st)) = Some sch'"
    and d': "job_defaults sch' = job_defaults sch"
    and pend: "pending_jobs sch' = pending_jobs sch @ new"
    and four: "list_all (\<lambda>e. job_max_instances (fst e) = Some 4 \<and>
                          trigger_timezone (trigger (fst e)) = timezone sch \<and>
                          snd e = (''default'', False)) new"
    unfolding seed_jobs_def by (elim exE conjE)
  have "default_limit (final (seed_jobs w st)) = Some 1"
    by (simp add: default_limit_def sch' d' dflt)
  moreover have "set (scheduled_limits (final (seed_jobs w st))) \<subseteq> {4}"
    using four by (auto simp: scheduled_limits_def sch' pend empty list_all_iff)
  ultimately show ?thesis by blast
qed

theorem seeded_limit_witness:
  "default_limit (final (seed_jobs
     (sample_env (sample_db True)
        [sample_job 1 ''*/5 * * * *'' True, sample_job 2 ''0 0 * * *'' True])
     (final (Supertask (sample_db True) ''memory://'' None)))) = Some 1 \<and>
   scheduled_limits (final (seed_jobs
     (sample_env (sample_db True)
        [sample_job 1 ''*/5 * * * *'' True, sample_job 2 ''0 0 * * *'' True])
     (final (Supertask (sample_db True) ''memory://'' None)))) = [4, 4]"
proof -
  let ?w = "sample_env (sample_db True)
        [sample_job 1 ''*/5 * * * *'' True, sample_job 2 ''0 0 * * *'' True]"
  let ?st = "final (Supertask (sample_db True) ''memory://'' None)"
  have h: "Supertask (sample_db True) ''memory://'' None = Inr ?st" by code_simp
  have two: "length (scheduled_limits (final (seed_jobs ?w ?st))) = 2" by code_simp
  from seeded_limit [OF h, of ?w]
  have d: "default_limit (final (seed_jobs ?w ?st)) = Some 1"
    and l: "set (scheduled_limits (final (seed_jobs ?w ?st))) \<subseteq> {4}"
    by blast+
  from two obtain a b where ab: "scheduled_limits (final (seed_jobs ?w ?st)) = [a, b]"
    by (auto simp: length_Suc_conv numeral_2_eq_2)
  with l have "a = 4" "b = 4" by auto
  with ab d show ?thesis by simp
qed

text \<open>
  C9. The scheduler is constructed with the fixed zone Europe/Vienna, seeding does not
  change it, and every job that \<open>seed_jobs\<close> adds computes its fire times in that zone:
  a job definition has no timezone field, none is passed to \<open>add_job\<close>, and the trigger takes
  the scheduler's.
\<close>

theorem seeded_timezone:
  assumes "Supertask db address flag = Inr st"
  shows "scheduler_timezone st = Some ''Europe/Vienna'' \<and>
         scheduler_timezone (final (seed_jobs w st)) = Some ''Europe/Vienna'' \<and>
         set (scheduled_timezones (final (seed_jobs w st))) \<subseteq> {''Europe/Vienna''}"
proof -
  from Supertask_Inr [OF assms] obtain sch where
    sch: "scheduler st = Some sch" and empty: "pending_jobs sch = []"
    and tz: "timezone sch = ''Europe/Vienna''"
    and nr: "\<not> running sch"
    by blast
  from seed_loop_final [OF sch nr, where cs = "get_db w" and acc = "accepts_fields w"]
  obtain new sch' where
    sch': "scheduler (final (seed_jobs w st)) = Some sch'"
    and tz': "timezone sch' = timezone sch"
    and pend: "pending_jobs sch' = pending_jobs sch @ new"
    and each: "list_all (\<lambda>e. job_max_instances (fst e) = Some 4 \<and>
                          trigger_timezone (trigger (fst e)) = timezone sch \<and>
                          snd e = (''default'', False)) new"
    unfolding seed_jobs_def by (elim exE conjE)
  have "scheduler_timezone st = Some ''Europe/Vienna''"
    by (simp add: scheduler_timezone_def sch tz)
  moreover have "scheduler_timezone (final (seed_jobs w st)) = Some ''Europe/Vienna''"
    by (simp add: scheduler_timezone_def sch' tz' tz)
  moreover have "set (scheduled_timezones (final (seed_jobs w st))) \<subseteq> {''Europe/Vienna''}"
    using each
    by (auto simp: scheduled_timezones_def queued_def sch' pend empty tz list_all_iff)
  ultimately show ?thesis by blast
qed

theorem seeded_timezone_witness:
  "scheduler_timezone (final (Supertask (sample_db True) ''crate://localhost'' (Some True))) =
     Some ''Europe/Vienna'' \<and>
   scheduled_timezones (final (seed_jobs
     (sample_env (sample_db True)
        [sample_job 1 ''*/5 * * * *'' True, sample_job 2 ''0 0 * * *'' True])
     (final (Supertask (sample_db True) ''crate://localhost'' (Some True))))) =
     [''Europe/Vienna'', ''Europe/Vienna'']"
proof -
  let ?w = "sample_env (sample_db True)
        [sample_job 1 ''*/5 * * * *'' True, sample_job 2 ''0 0 * * *'' True]"
  let ?st = "final (Supertask (sample_db True) ''crate://localhost'' (Some True))"
  have h: "Supertask (sample_db True) ''crate://localhost'' (Some True) = Inr ?st"
    by code_simp
  have two: "length (scheduled_timezones (final (seed_jobs ?w ?st))) = 2" by code_simp
  from seeded_timezone [OF h, of ?w]
  have z: "scheduler_timezone ?st = Some ''Europe/Vienna''"
    and l: "set (scheduled_timezones (final (seed_jobs ?w ?st))) \<subseteq> {''Europe/Vienna''}"
    by blast+
  from two obtain a b where ab: "scheduled_timezones (final (seed_jobs ?w ?st)) = [a, b]"
    by (auto simp: length_Suc_conv numeral_2_eq_2)
  with l have "a = ''Europe/Vienna''" "b = ''Europe/Vienna''" by auto
  with ab z show ?thesis by simp
qed

section \<open>Properties of starting\<close>




text \<open>A scheduler that has not been started does not start over an unavailable store.\<close>

lemma scheduler_start_unavailable:
  assumes "jobstores sch = [(''default'', store)]" and "\<not> available store"
    and "\<not> running sch"
  shows "scheduler_start sch = Inl (StoreError, sch)"
  using assms by (simp add: scheduler_start_def)


section \<open>The claims about configuration\<close>

text \<open>
  C4. The claim: \<open>configure\<close> ends with the in-memory store iff the address starts with
  \<open>memory://\<close>, with the SQL store iff it starts with \<open>postgresql://\<close>, with the CrateDB store
  iff it starts with \<open>crate://\<close>, and raises for every other address. As stated it fails: an
  address with the prefix \<open>postgresql://\<close> that the engine builder does not parse gets no
  store; the builder's exception ends the construction.
\<close>

theorem configure_by_prefix_counterexample:
  "startswith ''postgresql://localhost:abc/db'' ''postgresql://'' \<and>
   selected_backend (Supertask (sample_db True) ''postgresql://localhost:abc/db'' None) = None \<and>
   raised (Supertask (sample_db True) ''postgresql://localhost:abc/db'' None) = Some ValueError"
  by code_simp

text \<open>
  C4, amended. \<open>configure\<close> chooses the class of the job store by the prefix of the address
  and by nothing else. It ends with the in-memory store iff the address starts with
  \<open>memory://\<close>; with the SQL store iff it starts with \<open>postgresql://\<close> and the store's
  constructor builds an engine from it; with the CrateDB store iff it starts with
  \<open>crate://\<close> and the constructor builds an engine from it. When the constructor raises,
  that exception ends \<open>configure\<close>; for an address with none of the prefixes \<open>configure\<close>
  raises \<open>RuntimeError\<close>. Whenever it raises, the object is left as it was, and for a
  supertask under construction startup ends there, with that exception and no scheduler.
\<close>

theorem configure_selects:
  "(startswith (job_store_address self) ''memory://'' \<longleftrightarrow>
      selected_backend (configure db self) = Some MemoryJobStore) \<and>
   (startswith (job_store_address self) ''postgresql://'' \<and>
    create_engine db (job_store_address self) = None \<longleftrightarrow>
      selected_backend (configure db self) = Some SQLAlchemyJobStore) \<and>
   (startswith (job_store_address self) ''crate://'' \<and>
    create_engine db (job_store_address self) = None \<longleftrightarrow>
      selected_backend (configure db self) = Some CrateDBSQLAlchemyJobStore) \<and>
   raised (configure db self) =
     (if startswith (job_store_address self) ''memory://'' then None
      else if startswith (job_store_address self) ''postgresql://'' \<or>
              startswith (job_store_address self) ''crate://''
        then create_engine db (job_store_address self)
      else Some RuntimeError) \<and>
   (raised (configure db self) \<noteq> None \<longrightarrow> final (configure db self) = self) \<and>
   (raised (Supertask (database w) address flag) \<noteq> None \<longrightarrow>
      run_supertask w address flag = Supertask (database w) address flag \<and>
      scheduler (final (run_supertask w address flag)) = None)"
proof -
  note ex = startswith_exclusive [of "job_store_address self"]
  have sel: "selected_backend (configure db self) =
      (if startswith (job_store_address self) ''memory://'' then Some MemoryJobStore
       else if startswith (job_store_address self) ''postgresql://'' then
         (case create_engine db (job_store_address self) of
            None \<Rightarrow> Some SQLAlchemyJobStore | Some e \<Rightarrow> None)
       else if startswith (job_store_address self) ''crate://'' then
         (case create_engine db (job_store_address self) of
            None \<Rightarrow> Some CrateDBSQLAlchemyJobStore | Some e \<Rightarrow> None)
       else None)"
    by (simp add: selected_backend_def default_store_def configure_def Let_def
        BackgroundScheduler_def remove_all_jobs_def new_MemoryJobStore_def
        new_SQLAlchemyJobStore_def new_CrateDBSQLAlchemyJobStore_def
        split: option.splits)
  have 1: "startswith (job_store_address self) ''memory://'' \<longleftrightarrow>
      selected_backend (configure db self) = Some MemoryJobStore"
    unfolding sel by (simp split: option.splits)
  have 2: "startswith (job_store_address self) ''postgresql://'' \<and>
    create_engine db (job_store_address self) = None \<longleftrightarrow>
      selected_backend (configure db self) = Some SQLAlchemyJobStore"
    unfolding sel using ex by (auto split: option.splits)
  have 3: "startswith (job_store_address self) ''crate://'' \<and>
    create_engine db (job_store_address self) = None \<longleftrightarrow>
      selected_backend (configure db self) = Some CrateDBSQLAlchemyJobStore"
    unfolding sel using ex by (auto split: option.splits)
  have 4: "raised (configure db self) =
     (if startswith (job_store_address self) ''memory://'' then None
      else if startswith (job_store_address self) ''postgresql://'' \<or>
              startswith (job_store_address self) ''crate://''
        then create_engine db (job_store_address self)
      else Some RuntimeError)"
    by (simp add: raised_def configure_def Let_def new_SQLAlchemyJobStore_def
        new_CrateDBSQLAlchemyJobStore_def split: option.splits)
  have 5: "raised (configure d s) \<noteq> None \<longrightarrow> final (configure d s) = s" for d s
    by (cases "configure d s")
      (auto simp: raised_def final_def configure_def Let_def split: if_splits sum.splits)
  have 6: "raised (Supertask (database w) address flag) \<noteq> None \<longrightarrow>
      run_supertask w address flag = Supertask (database w) address flag \<and>
      scheduler (final (run_supertask w address flag)) = None"
  proof
    assume r: "raised (Supertask (database w) address flag) \<noteq> None"
    then obtain x where x: "Supertask (database w) address flag = Inl x"
      by (cases "Supertask (database w) address flag") (auto simp: raised_def)
    then have eq: "run_supertask w address flag = Supertask (database w) address flag"
      by (simp add: run_supertask_def)
    from r 5 [of "database w"]
    have "scheduler (final (Supertask (database w) address flag)) = None"
      unfolding Supertask_def by simp
    with eq show "run_supertask w address flag = Supertask (database w) address flag \<and>
      scheduler (final (run_supertask w address flag)) = None"
      by simp
  qed
  from 1 2 3 4 5 [of db self] 6 show ?thesis by blast
qed

theorem configure_selects_witness:
  "selected_backend (Supertask (sample_db True) ''memory://'' None) = Some MemoryJobStore \<and>
   selected_backend (Supertask (sample_db True) ''postgresql://postgres@localhost'' None) =
     Some SQLAlchemyJobStore \<and>
   selected_backend (Supertask (sample_db True) ''crate://localhost'' None) =
     Some CrateDBSQLAlchemyJobStore \<and>
   raised (run_supertask (sample_env (sample_db True) []) ''sqlite:///jobs.db'' None) =
     Some RuntimeError \<and>
   scheduler (final (run_supertask (sample_env (sample_db True) []) ''sqlite:///jobs.db'' None)) =
     None"
proof -
  let ?w = "sample_env (sample_db True) []"
  have r: "raised (Supertask (database ?w) ''sqlite:///jobs.db'' None) = Some RuntimeError"
    by code_simp
  then have "raised (Supertask (database ?w) ''sqlite:///jobs.db'' None) \<noteq> None" by simp
  with configure_selects [where w = ?w and address = "''sqlite:///jobs.db''" and flag = None]
  have eq: "run_supertask ?w ''sqlite:///jobs.db'' None =
              Supertask (database ?w) ''sqlite:///jobs.db'' None"
    and n: "scheduler (final (run_supertask ?w ''sqlite:///jobs.db'' None)) = None"
    by blast+
  from r eq have "raised (run_supertask ?w ''sqlite:///jobs.db'' None) = Some RuntimeError"
    by simp
  moreover have
    "selected_backend (Supertask (sample_db True) ''memory://'' None) = Some MemoryJobStore"
    by code_simp
  moreover have
    "selected_backend (Supertask (sample_db True) ''postgresql://postgres@localhost'' None) =
       Some SQLAlchemyJobStore"
    by code_simp
  moreover have
    "selected_backend (Supertask (sample_db True) ''crate://localhost'' None) =
       Some CrateDBSQLAlchemyJobStore"
    by code_simp
  ultimately show ?thesis using n by blast
qed




text \<open>
  C7. The claim: when the backend raises while the jobs are cleared at startup, the error
  propagates and startup aborts. As stated it fails: with the database down, clearing
  raises, and yet construction returns with no exception and startup goes on to seeding,
  where a malformed job definition raises its own \<open>ValueError\<close>.
\<close>

theorem clearing_failure_counterexample:
  "map_option remove_all_jobs (default_store
     (final (Supertask (sample_db False) ''crate://localhost'' (Some True)))) =
     Some (Inl StoreError) \<and>
   raised (Supertask (sample_db False) ''crate://localhost'' (Some True)) = None \<and>
   raised (run_supertask (sample_env (sample_db False) [sample_job 1 ''*/5 * *'' True])
     ''crate://localhost'' (Some True)) = Some ValueError"
  by code_simp

text \<open>
  C7, amended. When a durable job store was constructed and its backend raises while the
  jobs are cleared at startup with the flag set, \<open>configure\<close> catches the exception and
  discards it: construction returns with a scheduler over that store, whose jobs are as
  they were, and \<open>run_supertask\<close> goes on to seed that supertask and, if seeding returns,
  to start it. No exception of the clearing propagates; with the backend still down,
  startup ends only when the scheduler is started, with the exception of that call.
\<close>

theorem clearing_failure_discarded:
  assumes "startswith address ''postgresql://'' \<or> startswith address ''crate://''"
    and "create_engine (database w) address = None"
    and "\<not> db_up (database w)"
  shows "raised (Supertask (database w) address (Some True)) = None \<and>
         (\<exists>store. default_store (final (Supertask (database w) address (Some True))) =
                    Some store \<and>
            remove_all_jobs store = Inl StoreError \<and> jobs store = db_jobs (database w)) \<and>
         run_supertask w address (Some True) =
           (case seed_jobs w (final (Supertask (database w) address (Some True))) of
              Inl x \<Rightarrow> Inl x
            | Inr st' \<Rightarrow> start w st') \<and>
         (raised (seed_jobs w (final (Supertask (database w) address (Some True)))) = None
            \<longrightarrow> raised (run_supertask w address (Some True)) = Some StoreError)"
proof -
  let ?self = "\<lparr>job_store_address = address, pre_delete_jobs = True, scheduler = None\<rparr>"
  note ex = startswith_exclusive [of address]
  from assms(1) ex have m: "\<not> startswith address ''memory://''" by blast
  have "\<exists>st. configure (database w) ?self = Inr st"
    using assms m
    by (auto simp: configure_def Let_def new_SQLAlchemyJobStore_def
        new_CrateDBSQLAlchemyJobStore_def)
  then obtain st where c: "configure (database w) ?self = Inr st" ..
  then have S: "Supertask (database w) address (Some True) = Inr st"
    by (simp add: Supertask_def)
  have r: "raised (Supertask (database w) address (Some True)) = None"
    by (simp add: S raised_def)
  have f: "final (Supertask (database w) address (Some True)) = st"
    by (simp add: S final_def)
  from configure_store [OF c] obtain sch store where
    sch: "scheduler st = Some sch" and js: "jobstores sch = [(''default'', store)]"
    and av: "available store = (backend store = MemoryJobStore \<or> db_up (database w))"
    and jobs0: "jobs store =
       (if backend store = MemoryJobStore then []
        else if pre_delete_jobs ?self \<and> available store then []
        else db_jobs (database w))"
    by blast
  have nb: "backend store \<noteq> MemoryJobStore"
    using c m assms(1) sch js
    by (auto simp: configure_def Let_def BackgroundScheduler_def remove_all_jobs_def
        new_SQLAlchemyJobStore_def new_CrateDBSQLAlchemyJobStore_def
        split: if_splits option.splits)
  from av nb assms(3) have na: "\<not> available store" by simp
  have ds: "default_store st = Some store" by (simp add: default_store_def sch js)
  have rm: "remove_all_jobs store = Inl StoreError" by (simp add: remove_all_jobs_def na)
  have jb: "jobs store = db_jobs (database w)" using jobs0 nb na by simp
  have run: "run_supertask w address (Some True) =
           (case seed_jobs w st of Inl x \<Rightarrow> Inl x | Inr st' \<Rightarrow> start w st')"
    by (simp add: run_supertask_def S)
  from configure_Inr [OF c] sch have nr: "\<not> running sch" by auto
  have late: "raised (run_supertask w address (Some True)) = Some StoreError"
    if ok: "raised (seed_jobs w st) = None"
  proof -
    from ok obtain st1 where st1: "seed_jobs w st = Inr st1"
      by (cases "seed_jobs w st") (auto simp: raised_def)
    from seed_loop_final [OF sch nr, where cs = "get_db w" and acc = "accepts_fields w"]
    obtain new sch1 where
      sch1: "scheduler (final (seed_jobs w st)) = Some sch1"
      and js1: "jobstores sch1 = jobstores sch"
      and r1: "running sch1 = running sch"
      unfolding seed_jobs_def by (elim exE conjE)
    from sch1 st1 have sc1: "scheduler st1 = Some sch1" by (simp add: final_def)
    from r1 nr have nr1: "\<not> running sch1" by simp
    from scheduler_start_unavailable [OF js1 [unfolded js] na nr1]
    have "start_scheduler st1 = Inl (StoreError, st1\<lparr>scheduler := Some sch1\<rparr>)"
      by (simp add: start_scheduler_def sc1)
    then have "raised (start w st1) = Some StoreError"
      by (simp add: start_def raised_def)
    then show ?thesis by (simp add: run st1)
  qed
  from r ds rm jb run late show ?thesis unfolding f by blast
qed

theorem clearing_failure_discarded_witness:
  "raised (Supertask (sample_db False) ''postgresql://postgres@localhost'' (Some True)) = None \<and>
   map_option jobs (default_store
     (final (Supertask (sample_db False) ''postgresql://postgres@localhost'' (Some True)))) =
     Some [stored_job] \<and>
   raised (run_supertask (sample_env (sample_db False) [sample_job 1 ''*/5 * * * *'' True])
     ''postgresql://postgres@localhost'' (Some True)) = Some StoreError"
proof -
  let ?w = "sample_env (sample_db False) [sample_job 1 ''*/5 * * * *'' True]"
  let ?a = "''postgresql://postgres@localhost''"
  have h1: "startswith ?a ''postgresql://'' \<or> startswith ?a ''crate://''"
    by code_simp
  have h2: "create_engine (database ?w) ?a = None" by code_simp
  have h3: "\<not> db_up (database ?w)" by code_simp
  have db: "database ?w = sample_db False" by (simp add: sample_env_def)
  have sd: "db_jobs (database ?w) = [stored_job]" by code_simp
  have ok: "raised (seed_jobs ?w (final (Supertask (database ?w) ?a (Some True)))) = None"
    by code_simp
  from clearing_failure_discarded [OF h1 h2 h3] ok obtain store where
    "raised (Supertask (database ?w) ?a (Some True)) = None"
    "default_store (final (Supertask (database ?w) ?a (Some True))) = Some store"
    "jobs store = db_jobs (database ?w)"
    "raised (run_supertask ?w ?a (Some True)) = Some StoreError"
    by blast
  then show ?thesis unfolding sd unfolding db by simp
qed

end
